theory Spec2Isabelle
  imports Complex_Main
begin

section \<open>Arrays and the failures of the array library\<close>

text \<open>
  The estimator of the notebook (the last definition of \<^verbatim>\<open>class MyLinearModel\<close>, the one
  with the \<^verbatim>\<open>fit_intercept\<close> option) works on numpy arrays. A two-dimensional array is
  modelled with its shape written out, since numpy keeps the shape of an array that has no
  row or no column: \<open>nrows\<close> is \<^verbatim>\<open>X.shape[0]\<close>, \<open>ncols\<close> is \<^verbatim>\<open>X.shape[1]\<close>, and
  \<open>rows\<close> lists the entries row by row. A one-dimensional array is a list.

  Numbers are idealised: the entries of the inputs are real numbers, and sums, products and
  quotients by a nonzero number are exact. What IEEE arithmetic does where the reals have no
  answer is kept: a quotient by zero and the square root of a negative number raise nothing
  in numpy (a warning is printed) and give an infinity or NaN. The type \<open>npfloat\<close> below is
  the type of the values that come after the first division of \<^verbatim>\<open>fit\<close>.
\<close>

datatype 'a matrix = Matrix (nrows: nat) (ncols: nat) (rows: "'a list list")

definition wf_mat :: "'a matrix \<Rightarrow> bool" where
  "wf_mat A \<longleftrightarrow> length (rows A) = nrows A \<and> list_all (\<lambda>r. length r = ncols A) (rows A)"

text \<open>
  The exceptions the code can meet, named by their cause:
  \<^item> \<open>ShapeMismatch\<close>: \<^verbatim>\<open>ValueError\<close> of \<^verbatim>\<open>@\<close> or of a broadcast on operands whose
    dimensions do not agree;
  \<^item> \<open>NoneOperand\<close>: the error \<^verbatim>\<open>@\<close> raises on the operand \<^verbatim>\<open>None\<close>, which has no dimension;
  \<^item> \<open>EmptyReduction\<close>: \<^verbatim>\<open>ValueError\<close> of a maximum or minimum taken over an axis of
    length zero;
  \<^item> \<open>NotSquare\<close> and \<open>SingularMatrix\<close>: the two \<^verbatim>\<open>LinAlgError\<close>s of \<^verbatim>\<open>np.linalg.inv\<close>.
\<close>

datatype error = ShapeMismatch | NoneOperand | EmptyReduction | NotSquare | SingularMatrix

datatype npfloat = Fin real | PInf | NInf | NaN

definition dot :: "real list \<Rightarrow> real list \<Rightarrow> real" where
  "dot u v = sum_list (map2 (*) u v)"

definition col :: "'a matrix \<Rightarrow> nat \<Rightarrow> 'a list" where
  "col A j = map (\<lambda>r. r ! j) (rows A)"

text \<open>\<^verbatim>\<open>X.T\<close>\<close>

definition mat_T :: "'a matrix \<Rightarrow> 'a matrix" where
  "mat_T A = Matrix (ncols A) (nrows A) (map (col A) [0..<ncols A])"

text \<open>\<^verbatim>\<open>A @ B\<close> on two two-dimensional arrays.\<close>

definition matmul :: "real matrix \<Rightarrow> real matrix \<Rightarrow> error + real matrix" where
  "matmul A B =
     (if ncols A \<noteq> nrows B then Inl ShapeMismatch
      else Inr (Matrix (nrows A) (ncols B)
                  (map (\<lambda>r. map (\<lambda>j. dot r (col B j)) [0..<ncols B]) (rows A))))"

text \<open>\<^verbatim>\<open>A @ v\<close> on a two-dimensional and a one-dimensional array.\<close>

definition matvec :: "real matrix \<Rightarrow> real list \<Rightarrow> error + real list" where
  "matvec A v =
     (if ncols A \<noteq> length v then Inl ShapeMismatch
      else Inr (map (\<lambda>r. dot r v) (rows A)))"

text \<open>
  \<^verbatim>\<open>u - v\<close> on two one-dimensional arrays: entry by entry when the lengths agree, an array
  of length one is broadcast, any other pair of lengths raises.
\<close>

definition np_sub :: "real list \<Rightarrow> real list \<Rightarrow> error + real list" where
  "np_sub u v =
     (if length u = length v then Inr (map2 (-) u v)
      else if length v = 1 then Inr (map (\<lambda>a. a - hd v) u)
      else if length u = 1 then Inr (map (\<lambda>b. hd u - b) v)
      else Inl ShapeMismatch)"

text \<open>\<^verbatim>\<open>np.sum(v ** 2)\<close>\<close>

definition sum_squares :: "real list \<Rightarrow> real" where
  "sum_squares v = sum_list (map (\<lambda>a. a\<^sup>2) v)"

subsection \<open>Values after a division\<close>

text \<open>
  \<^verbatim>\<open>a / b\<close> on two finite floats: IEEE division, which raises nothing on a zero divisor.
\<close>

definition np_div :: "real \<Rightarrow> real \<Rightarrow> npfloat" where
  "np_div a b =
     (if b \<noteq> 0 then Fin (a / b)
      else if 0 < a then PInf
      else if a < 0 then NInf
      else NaN)"

text \<open>The product of a scalar that came out of a division with a finite entry.\<close>

fun np_mul :: "npfloat \<Rightarrow> real \<Rightarrow> npfloat" where
  "np_mul (Fin a) b = Fin (a * b)"
| "np_mul PInf b = (if 0 < b then PInf else if b < 0 then NInf else NaN)"
| "np_mul NInf b = (if 0 < b then NInf else if b < 0 then PInf else NaN)"
| "np_mul NaN b = NaN"

text \<open>\<^verbatim>\<open>np.sqrt\<close>: NaN on a negative number and on NaN, with a warning and no exception.\<close>

fun np_sqrt :: "npfloat \<Rightarrow> npfloat" where
  "np_sqrt (Fin a) = (if a < 0 then NaN else Fin (sqrt a))"
| "np_sqrt PInf = PInf"
| "np_sqrt NInf = NaN"
| "np_sqrt NaN = NaN"

text \<open>\<^verbatim>\<open>1 - v\<close>\<close>

fun np_one_minus :: "npfloat \<Rightarrow> npfloat" where
  "np_one_minus (Fin a) = Fin (1 - a)"
| "np_one_minus PInf = NInf"
| "np_one_minus NInf = PInf"
| "np_one_minus NaN = NaN"

text \<open>\<^verbatim>\<open>s * M\<close> for a scalar \<open>s\<close>, and \<^verbatim>\<open>np.diag(M)\<close>.\<close>

definition np_scale :: "npfloat \<Rightarrow> real matrix \<Rightarrow> npfloat matrix" where
  "np_scale s M = Matrix (nrows M) (ncols M) (map (map (np_mul s)) (rows M))"

definition np_diag :: "'a matrix \<Rightarrow> 'a list" where
  "np_diag M = map (\<lambda>i. rows M ! i ! i) [0..<min (nrows M) (ncols M)]"

text \<open>
  \<^verbatim>\<open>np.sum((y - y.mean()) ** 2)\<close>. On an empty \<open>y\<close> the mean of numpy is NaN, and the
  difference and the sum range over no entry: the sum is \<open>0.0\<close>, which is the value of the
  definition below too (the quotient by zero of HOL is never looked at).
\<close>

definition y_mean :: "real list \<Rightarrow> real" where
  "y_mean y = sum_list y / real (length y)"

definition total_variance :: "real list \<Rightarrow> real" where
  "total_variance y = sum_squares (map (\<lambda>v. v - y_mean y) y)"

subsection \<open>The constant column of statsmodels\<close>

text \<open>
  \<^verbatim>\<open>sm.add_constant\<close> is a function of the statsmodels library, called by the notebook with
  the library's defaults \<^verbatim>\<open>prepend=True, has_constant='skip'\<close>. On a two-dimensional array
  it computes, for every column, whether the column is constant and nonzero (its
  peak-to-peak range \<^verbatim>\<open>np.ptp(x, axis=0)\<close> is zero and \<^verbatim>\<open>np.all(x != 0.0, axis=0)\<close>); when
  some column is, the default \<^verbatim>\<open>'skip'\<close> returns the array as it is; otherwise a column of
  ones is put in front. The range of an array with no row raises.
\<close>

definition np_ptp :: "real list \<Rightarrow> real" where
  "np_ptp c = fold max c (hd c) - fold min c (hd c)"

definition is_nonzero_const :: "real list \<Rightarrow> bool" where
  "is_nonzero_const c \<longleftrightarrow> np_ptp c = 0 \<and> list_all (\<lambda>v. v \<noteq> 0) c"

definition has_constant :: "real matrix \<Rightarrow> bool" where
  "has_constant x \<longleftrightarrow> list_ex (\<lambda>j. is_nonzero_const (col x j)) [0..<ncols x]"

definition add_constant :: "real matrix \<Rightarrow> error + real matrix" where
  "add_constant x =
     (if nrows x = 0 then Inl EmptyReduction
      else if has_constant x then Inr x
      else Inr (Matrix (nrows x) (Suc (ncols x)) (map (\<lambda>r. 1 # r) (rows x))))"

subsection \<open>The inverse of a matrix\<close>

text \<open>
  \<^verbatim>\<open>np.linalg.inv\<close> is a function of numpy: it raises \<^verbatim>\<open>LinAlgError\<close> on an array that is
  not square and on a singular matrix, and returns the inverse otherwise. In exact
  arithmetic the inverse does not depend on the elimination order, so the model is
  Gauss-Jordan elimination on the rows of \<open>(A | I)\<close>, each row kept as the pair of its left
  and right halves, with the first nonzero entry of a column as its pivot.
\<close>

type_synonym aug_row = "real list \<times> real list"

definition scale_row :: "real \<Rightarrow> aug_row \<Rightarrow> aug_row" where
  "scale_row c r = (map ((*) c) (fst r), map ((*) c) (snd r))"

definition sub_row :: "real \<Rightarrow> aug_row \<Rightarrow> aug_row \<Rightarrow> aug_row" where
  "sub_row c p r =
     (map2 (\<lambda>a b. a - c * b) (fst r) (fst p), map2 (\<lambda>a b. a - c * b) (snd r) (snd p))"

definition find_pivot :: "nat \<Rightarrow> aug_row list \<Rightarrow> nat option" where
  "find_pivot j rs = List.find (\<lambda>i. fst (rs ! i) ! j \<noteq> 0) [j..<length rs]"

definition gj_step :: "nat \<Rightarrow> aug_row list \<Rightarrow> aug_row list option" where
  "gj_step j rs =
     (case find_pivot j rs of
        None \<Rightarrow> None
      | Some p \<Rightarrow>
          let rs1 = rs[j := rs ! p, p := rs ! j];
              piv = scale_row (1 / fst (rs1 ! j) ! j) (rs1 ! j)
          in Some (map (\<lambda>i. if i = j then piv else sub_row (fst (rs1 ! i) ! j) piv (rs1 ! i))
                     [0..<length rs1]))"

fun gj_cols :: "nat list \<Rightarrow> aug_row list \<Rightarrow> aug_row list option" where
  "gj_cols [] rs = Some rs"
| "gj_cols (j # js) rs = (case gj_step j rs of None \<Rightarrow> None | Some rs' \<Rightarrow> gj_cols js rs')"

definition unit_vec :: "nat \<Rightarrow> nat \<Rightarrow> real list" where
  "unit_vec n i = map (\<lambda>j. if j = i then 1 else 0) [0..<n]"

definition mat_identity :: "nat \<Rightarrow> real matrix" where
  "mat_identity n = Matrix n n (map (unit_vec n) [0..<n])"

definition linalg_inv :: "real matrix \<Rightarrow> error + real matrix" where
  "linalg_inv a =
     (if nrows a \<noteq> ncols a then Inl NotSquare
      else case gj_cols [0..<nrows a] (zip (rows a) (rows (mat_identity (nrows a)))) of
             None \<Rightarrow> Inl SingularMatrix
           | Some rs \<Rightarrow> Inr (Matrix (nrows a) (nrows a) (map snd rs)))"

section \<open>The estimator\<close>

text \<open>
  \<^verbatim>\<open>
  class MyLinearModel:
      def __init__(self, fit_intercept=True):
          self.coefficients = None
          self.std_errors = None
          self.r_squared = None
          self.fit_intercept = fit_intercept
  \<close>
  An attribute that holds \<^verbatim>\<open>None\<close> is \<open>None\<close>.
\<close>

record MyLinearModel =
  coefficients :: "real list option"
  std_errors :: "npfloat list option"
  r_squared :: "npfloat option"
  fit_intercept :: bool

definition init :: "bool \<Rightarrow> MyLinearModel" where
  "init b = \<lparr>coefficients = None, std_errors = None, r_squared = None, fit_intercept = b\<rparr>"

text \<open>
  A method returns what it returns or raises, together with the object as the method left
  it: an exception keeps the assignments made before it. \<open>raising r self k\<close> runs the
  library call \<open>r\<close>: its exception leaves the method with the object \<open>self\<close> of that
  moment, its value goes on to the rest \<open>k\<close> of the method.
\<close>

definition raising :: "error + 'a \<Rightarrow> 's \<Rightarrow> ('a \<Rightarrow> (error + 'b) \<times> 's) \<Rightarrow> (error + 'b) \<times> 's" where
  "raising r self k = (case r of Inl e \<Rightarrow> (Inl e, self) | Inr v \<Rightarrow> k v)"

text \<open>
  \<^verbatim>\<open>
      def fit(self, X, y):
          if self.fit_intercept:
              X = sm.add_constant(X)

          X_transpose = X.T
          self.coefficients = np.linalg.inv(X_transpose @ X) @ X_transpose @ y

          y_pred = X @ self.coefficients
          residuals = y - y_pred

          error_variance = np.sum(residuals**2) / (X.shape[0] - X.shape[1])

          var_cov_matrix = error_variance * np.linalg.inv(X_transpose @ X)
          self.std_errors = np.sqrt(np.diag(var_cov_matrix))

          # R-squared
          total_variance = np.sum((y - y.mean()) ** 2)
          self.r_squared = 1 - (np.sum(residuals**2) / total_variance)

          return y_pred
  \<close>
\<close>

definition fit :: "MyLinearModel \<Rightarrow> real matrix \<Rightarrow> real list \<Rightarrow> (error + real list) \<times> MyLinearModel" where
  "fit self X0 y =
     raising (if fit_intercept self then add_constant X0 else Inr X0) self (\<lambda>X.
     let X_transpose = mat_T X in
     raising (matmul X_transpose X) self (\<lambda>XtX.
     raising (linalg_inv XtX) self (\<lambda>XtX_inv.
     raising (matmul XtX_inv X_transpose) self (\<lambda>P.
     raising (matvec P y) self (\<lambda>beta.
     let self1 = self\<lparr>coefficients := Some beta\<rparr> in
     raising (matvec X beta) self1 (\<lambda>y_pred.
     raising (np_sub y y_pred) self1 (\<lambda>residuals.
     let error_variance = np_div (sum_squares residuals) (real_of_int (int (nrows X) - int (ncols X))) in
     raising (matmul X_transpose X) self1 (\<lambda>XtX2.
     raising (linalg_inv XtX2) self1 (\<lambda>XtX_inv2.
     let var_cov_matrix = np_scale error_variance XtX_inv2;
         self2 = self1\<lparr>std_errors := Some (map np_sqrt (np_diag var_cov_matrix))\<rparr>;
         self3 = self2\<lparr>r_squared :=
                   Some (np_one_minus (np_div (sum_squares residuals) (total_variance y)))\<rparr>
     in (Inr y_pred, self3))))))))))"

text \<open>
  \<^verbatim>\<open>
      def predict(self, X_test):
          if self.fit_intercept:
              X_test = sm.add_constant(X_test)
          return X_test @ self.coefficients
  \<close>
\<close>

definition predict :: "MyLinearModel \<Rightarrow> real matrix \<Rightarrow> (error + real list) \<times> MyLinearModel" where
  "predict self X_test0 =
     raising (if fit_intercept self then add_constant X_test0 else Inr X_test0) self (\<lambda>X_test.
     raising (case coefficients self of None \<Rightarrow> Inl NoneOperand | Some beta \<Rightarrow> matvec X_test beta)
       self (\<lambda>r. (Inr r, self)))"


section \<open>The estimator on a store of arrays\<close>

text \<open>
  Python passes arrays by reference, and an attribute holds a reference. To say what a call
  does to the arrays of its caller, the two methods are written a second time on a store:
  a list of the array objects that exist, an object's address being its position. Every numpy
  call of the two methods builds its result as a new object (also \<^verbatim>\<open>X.T\<close>, a new array
  object on the buffer of \<open>X\<close>, which nothing writes to); none has an \<^verbatim>\<open>out=\<close> argument or
  is an in-place operator. \<^verbatim>\<open>sm.add_constant\<close> returns the object it was given when it adds
  no column. Numbers (\<^verbatim>\<open>np.float64\<close>) are values, not objects.
\<close>

datatype pyobj = Array2 "real matrix" | Array1 "real list" | FArray2 "npfloat matrix" | FArray1 "npfloat list"

type_synonym heap = "pyobj list"

definition alloc :: "heap \<Rightarrow> pyobj \<Rightarrow> nat \<times> heap" where
  "alloc h v = (length h, h @ [v])"

text \<open>The result of a library call becomes a new object, its exception is passed on.\<close>

definition new_array :: "heap \<Rightarrow> ('a \<Rightarrow> pyobj) \<Rightarrow> error + 'a \<Rightarrow> error + nat \<times> heap" where
  "new_array h mk r = (case r of Inl e \<Rightarrow> Inl e | Inr v \<Rightarrow> Inr (alloc h (mk v)))"

text \<open>\<^verbatim>\<open>sm.add_constant\<close> on an address: the address it was given, or that of a new matrix.\<close>

definition h_add_constant :: "heap \<Rightarrow> nat \<Rightarrow> error + nat \<times> heap" where
  "h_add_constant h x =
     (case h ! x of
        Array2 X \<Rightarrow>
          if nrows X = 0 then Inl EmptyReduction
          else if has_constant X then Inr (x, h)
          else Inr (alloc h (Array2 (Matrix (nrows X) (Suc (ncols X)) (map (\<lambda>r. 1 # r) (rows X)))))
      | _ \<Rightarrow> Inl ShapeMismatch)"

text \<open>
  The calls of \<open>fit\<close> and \<open>predict\<close> on addresses. An operand of the wrong kind raises
  (the methods are only called on a matrix and a vector).
\<close>

definition h_T :: "heap \<Rightarrow> nat \<Rightarrow> error + nat \<times> heap" where
  "h_T h x = (case h ! x of Array2 X \<Rightarrow> Inr (alloc h (Array2 (mat_T X))) | _ \<Rightarrow> Inl ShapeMismatch)"

definition h_matmul :: "heap \<Rightarrow> nat \<Rightarrow> nat \<Rightarrow> error + nat \<times> heap" where
  "h_matmul h a b =
     (case (h ! a, h ! b) of
        (Array2 A, Array2 B) \<Rightarrow> new_array h Array2 (matmul A B)
      | (Array2 A, Array1 v) \<Rightarrow> new_array h Array1 (matvec A v)
      | _ \<Rightarrow> Inl ShapeMismatch)"

definition h_inv :: "heap \<Rightarrow> nat \<Rightarrow> error + nat \<times> heap" where
  "h_inv h a = (case h ! a of Array2 A \<Rightarrow> new_array h Array2 (linalg_inv A) | _ \<Rightarrow> Inl NotSquare)"

definition h_sub :: "heap \<Rightarrow> nat \<Rightarrow> nat \<Rightarrow> error + nat \<times> heap" where
  "h_sub h a b =
     (case (h ! a, h ! b) of
        (Array1 u, Array1 v) \<Rightarrow> new_array h Array1 (np_sub u v)
      | _ \<Rightarrow> Inl ShapeMismatch)"

definition h_sub_scalar :: "heap \<Rightarrow> nat \<Rightarrow> real \<Rightarrow> error + nat \<times> heap" where
  "h_sub_scalar h a m =
     (case h ! a of Array1 u \<Rightarrow> Inr (alloc h (Array1 (map (\<lambda>v. v - m) u))) | _ \<Rightarrow> Inl ShapeMismatch)"

definition h_square :: "heap \<Rightarrow> nat \<Rightarrow> error + nat \<times> heap" where
  "h_square h a =
     (case h ! a of Array1 u \<Rightarrow> Inr (alloc h (Array1 (map (\<lambda>v. v\<^sup>2) u))) | _ \<Rightarrow> Inl ShapeMismatch)"

definition h_sum :: "heap \<Rightarrow> nat \<Rightarrow> real" where
  "h_sum h a = (case h ! a of Array1 u \<Rightarrow> sum_list u | _ \<Rightarrow> 0)"

definition h_mean :: "heap \<Rightarrow> nat \<Rightarrow> real" where
  "h_mean h a = (case h ! a of Array1 u \<Rightarrow> y_mean u | _ \<Rightarrow> 0)"

definition h_shape :: "heap \<Rightarrow> nat \<Rightarrow> nat \<times> nat" where
  "h_shape h a = (case h ! a of Array2 X \<Rightarrow> (nrows X, ncols X) | _ \<Rightarrow> (0, 0))"

definition h_scale :: "heap \<Rightarrow> npfloat \<Rightarrow> nat \<Rightarrow> error + nat \<times> heap" where
  "h_scale h s a =
     (case h ! a of Array2 M \<Rightarrow> Inr (alloc h (FArray2 (np_scale s M))) | _ \<Rightarrow> Inl ShapeMismatch)"

definition h_diag :: "heap \<Rightarrow> nat \<Rightarrow> error + nat \<times> heap" where
  "h_diag h a =
     (case h ! a of FArray2 M \<Rightarrow> Inr (alloc h (FArray1 (np_diag M))) | _ \<Rightarrow> Inl ShapeMismatch)"

definition h_sqrt :: "heap \<Rightarrow> nat \<Rightarrow> error + nat \<times> heap" where
  "h_sqrt h a =
     (case h ! a of FArray1 v \<Rightarrow> Inr (alloc h (FArray1 (map np_sqrt v))) | _ \<Rightarrow> Inl ShapeMismatch)"

text \<open>The object \<^verbatim>\<open>self\<close>: the two array attributes hold addresses.\<close>

record MyLinearModel_ref =
  coefficients_ref :: "nat option"
  std_errors_ref :: "nat option"
  r_squared_val :: "npfloat option"
  fit_intercept_flag :: bool

text \<open>As \<open>raising\<close>, with the store of the moment.\<close>

definition h_raising ::
  "error + nat \<times> heap \<Rightarrow> 's \<Rightarrow> heap \<Rightarrow> (nat \<Rightarrow> heap \<Rightarrow> (error + 'b) \<times> 's \<times> heap)
     \<Rightarrow> (error + 'b) \<times> 's \<times> heap" where
  "h_raising r self h k = (case r of Inl e \<Rightarrow> (Inl e, self, h) | Inr (a, h') \<Rightarrow> k a h')"

text \<open>The body of \<^verbatim>\<open>fit\<close>, statement by statement, every intermediate array in the store.\<close>

definition fit_ref ::
  "MyLinearModel_ref \<Rightarrow> heap \<Rightarrow> nat \<Rightarrow> nat \<Rightarrow> (error + nat) \<times> MyLinearModel_ref \<times> heap" where
  "fit_ref self h0 X0 y =
     h_raising (if fit_intercept_flag self then h_add_constant h0 X0 else Inr (X0, h0)) self h0 (\<lambda>X h.
     h_raising (h_T h X) self h (\<lambda>X_transpose h.
     h_raising (h_matmul h X_transpose X) self h (\<lambda>XtX h.
     h_raising (h_inv h XtX) self h (\<lambda>XtX_inv h.
     h_raising (h_matmul h XtX_inv X_transpose) self h (\<lambda>P h.
     h_raising (h_matmul h P y) self h (\<lambda>beta h.
     let self1 = self\<lparr>coefficients_ref := Some beta\<rparr> in
     h_raising (h_matmul h X beta) self1 h (\<lambda>y_pred h.
     h_raising (h_sub h y y_pred) self1 h (\<lambda>residuals h.
     h_raising (h_square h residuals) self1 h (\<lambda>sq h.
     let error_variance =
           np_div (h_sum h sq) (real_of_int (int (fst (h_shape h X)) - int (snd (h_shape h X)))) in
     h_raising (h_matmul h X_transpose X) self1 h (\<lambda>XtX2 h.
     h_raising (h_inv h XtX2) self1 h (\<lambda>XtX_inv2 h.
     h_raising (h_scale h error_variance XtX_inv2) self1 h (\<lambda>var_cov_matrix h.
     h_raising (h_diag h var_cov_matrix) self1 h (\<lambda>d h.
     h_raising (h_sqrt h d) self1 h (\<lambda>se h.
     let self2 = self1\<lparr>std_errors_ref := Some se\<rparr> in
     h_raising (h_sub_scalar h y (h_mean h y)) self2 h (\<lambda>centred h.
     h_raising (h_square h centred) self2 h (\<lambda>csq h.
     let total_variance = h_sum h csq in
     h_raising (h_square h residuals) self2 h (\<lambda>sq2 h.
     let self3 = self2\<lparr>r_squared_val := Some (np_one_minus (np_div (h_sum h sq2) total_variance))\<rparr>
     in (Inr y_pred, self3, h))))))))))))))))))"

definition predict_ref ::
  "MyLinearModel_ref \<Rightarrow> heap \<Rightarrow> nat \<Rightarrow> (error + nat) \<times> MyLinearModel_ref \<times> heap" where
  "predict_ref self h0 X_test0 =
     h_raising (if fit_intercept_flag self then h_add_constant h0 X_test0 else Inr (X_test0, h0)) self h0
       (\<lambda>X_test h.
     h_raising (case coefficients_ref self of None \<Rightarrow> Inl NoneOperand | Some beta \<Rightarrow> h_matmul h X_test beta)
       self h (\<lambda>r h. (Inr r, self, h)))"

definition init_ref :: "bool \<Rightarrow> MyLinearModel_ref" where
  "init_ref b = \<lparr>coefficients_ref = None, std_errors_ref = None, r_squared_val = None, fit_intercept_flag = b\<rparr>"

text \<open>
  What the store model is compared with: the store \<open>h'\<close> keeps the objects of \<open>h\<close> at their
  addresses; and the attributes of the first model that an object \<^verbatim>\<open>self\<close> with addresses stands
  for.
\<close>

definition extends :: "heap \<Rightarrow> heap \<Rightarrow> bool" where
  "extends h h' \<longleftrightarrow> length h \<le> length h' \<and> take (length h) h' = h"

definition grows :: "heap \<Rightarrow> (error + 'b) \<times> 's \<times> heap \<Rightarrow> bool" where
  "grows h res \<longleftrightarrow> extends h (snd (snd res))"

definition vec_at :: "heap \<Rightarrow> nat \<Rightarrow> real list" where
  "vec_at h a = (case h ! a of Array1 v \<Rightarrow> v | _ \<Rightarrow> [])"

definition fvec_at :: "heap \<Rightarrow> nat \<Rightarrow> npfloat list" where
  "fvec_at h a = (case h ! a of FArray1 v \<Rightarrow> v | _ \<Rightarrow> [])"

definition attributes :: "MyLinearModel_ref \<Rightarrow> heap \<Rightarrow> MyLinearModel" where
  "attributes self h =
     \<lparr>coefficients = map_option (vec_at h) (coefficients_ref self),
      std_errors = map_option (fvec_at h) (std_errors_ref self),
      r_squared = r_squared_val self,
      fit_intercept = fit_intercept_flag self\<rparr>"

definition valid_refs :: "MyLinearModel_ref \<Rightarrow> heap \<Rightarrow> bool" where
  "valid_refs self h \<longleftrightarrow>
     (case coefficients_ref self of None \<Rightarrow> True | Some a \<Rightarrow> a < length h) \<and>
     (case std_errors_ref self of None \<Rightarrow> True | Some a \<Rightarrow> a < length h)"

section \<open>Notions used to state the properties\<close>

text \<open>
  The product of a row vector with a matrix: a row of \<^verbatim>\<open>R @ A\<close> is \<open>vecmat r A\<close> for the
  row \<open>r\<close> of \<open>R\<close>.
\<close>

definition vecmat :: "real list \<Rightarrow> real matrix \<Rightarrow> real list" where
  "vecmat r A = map (\<lambda>j. dot r (col A j)) [0..<ncols A]"

text \<open>
  The invariant of the elimination on \<open>(A | I)\<close>: the left half of a row is its right half
  times \<open>A\<close>; and the columns before \<open>j\<close> of the left halves are already those of the
  identity.
\<close>

definition row_ok :: "real matrix \<Rightarrow> aug_row \<Rightarrow> bool" where
  "row_ok A r \<longleftrightarrow> length (snd r) = nrows A \<and> fst r = vecmat (snd r) A"




text \<open>The values of \<open>npfloat\<close> that are numbers.\<close>

fun is_fin :: "npfloat \<Rightarrow> bool" where
  "is_fin (Fin a) = True"
| "is_fin v = False"

section \<open>Evaluation and the shape of a call\<close>

lemmas ev = fit_def predict_def raising_def init_def add_constant_def has_constant_def is_nonzero_const_def
  np_ptp_def col_def mat_T_def matmul_def matvec_def dot_def np_sub_def sum_squares_def np_div_def
  np_scale_def np_diag_def y_mean_def total_variance_def linalg_inv_def gj_step_def find_pivot_def
  scale_row_def sub_row_def unit_vec_def mat_identity_def wf_mat_def Let_def upt_conv_Cons power2_eq_square

lemma raising_Inr: "raising r s k = (Inr v, s') \<longleftrightarrow> (\<exists>a. r = Inr a \<and> k a = (Inr v, s'))"
  by (cases r) (simp_all add: raising_def)


lemma fit_Inr_iff:
  "fit self X0 y = (Inr yhat, self') \<longleftrightarrow>
     (\<exists>X XtX Inv P beta residuals.
        (if fit_intercept self then add_constant X0 else Inr X0) = Inr X \<and>
        matmul (mat_T X) X = Inr XtX \<and> linalg_inv XtX = Inr Inv \<and>
        matmul Inv (mat_T X) = Inr P \<and> matvec P y = Inr beta \<and>
        matvec X beta = Inr yhat \<and> np_sub y yhat = Inr residuals \<and>
        self' = self\<lparr>coefficients := Some beta,
                  std_errors := Some (map np_sqrt (np_diag (np_scale
                      (np_div (sum_squares residuals) (real_of_int (int (nrows X) - int (ncols X)))) Inv))),
                  r_squared := Some (np_one_minus (np_div (sum_squares residuals) (total_variance y)))\<rparr>)"
  unfolding fit_def Let_def raising_Inr by auto


section \<open>The elimination returns a left inverse\<close>


lemma dot_sum: "dot u v = (\<Sum>i<min (length u) (length v). u ! i * v ! i)"
  by (simp add: dot_def sum_list_sum_nth atLeast0LessThan)

lemma dot_scale: "dot (map ((*) c) u) v = c * dot u v"
  by (simp add: dot_sum sum_distrib_left mult.assoc)

lemma dot_sub:
  assumes "length u = length w"
  shows "dot (map2 (\<lambda>a b. a - c * b) u w) v = dot u v - c * dot w v"
  using assms by (simp add: dot_sum sum_distrib_left sum_subtractf algebra_simps)

lemma vecmat_scale: "vecmat (map ((*) c) r) A = map ((*) c) (vecmat r A)"
  by (simp add: vecmat_def dot_scale)

lemma vecmat_sub:
  assumes "length u = length w"
  shows "vecmat (map2 (\<lambda>a b. a - c * b) u w) A = map2 (\<lambda>a b. a - c * b) (vecmat u A) (vecmat w A)"
  using assms by (auto simp: vecmat_def dot_sub intro!: nth_equalityI)

lemma length_vecmat [simp]: "length (vecmat r A) = ncols A"
  by (simp add: vecmat_def)


lemma row_ok_scale: "row_ok A r \<Longrightarrow> row_ok A (scale_row c r)"
  by (simp add: row_ok_def scale_row_def vecmat_scale)

lemma row_ok_sub: "row_ok A r \<Longrightarrow> row_ok A p \<Longrightarrow> row_ok A (sub_row c p r)"
  by (simp add: row_ok_def sub_row_def vecmat_sub)

lemma find_pivot_Some:
  assumes "find_pivot j rs = Some p"
  shows "j \<le> p" "p < length rs" "fst (rs ! p) ! j \<noteq> 0"
  using assms unfolding find_pivot_def find_Some_iff by auto

lemma gj_step_length: "gj_step j rs = Some rs' \<Longrightarrow> length rs' = length rs"
  by (auto simp: gj_step_def Let_def split: option.splits)

lemma gj_cols_length: "gj_cols js rs = Some rs' \<Longrightarrow> length rs' = length rs"
  by (induction js arbitrary: rs) (auto split: option.splits dest: gj_step_length)

lemma gj_step_ok:
  assumes "gj_step j rs = Some rs'" "list_all (row_ok A) rs" "j < length rs"
  shows "list_all (row_ok A) rs'"
proof -
  from assms(1) obtain p where p: "find_pivot j rs = Some p"
    by (auto simp: gj_step_def split: option.splits)
  define rs1 where "rs1 = rs[j := rs ! p, p := rs ! j]"
  define piv where "piv = scale_row (1 / fst (rs1 ! j) ! j) (rs1 ! j)"
  have rs': "rs' = map (\<lambda>i. if i = j then piv else sub_row (fst (rs1 ! i) ! j) piv (rs1 ! i)) [0..<length rs1]"
    using assms(1) p unfolding rs1_def piv_def by (auto simp: gj_step_def Let_def)
  have pl: "p < length rs" using find_pivot_Some[OF p] by simp
  have ok: "\<And>i. i < length rs \<Longrightarrow> row_ok A (rs ! i)"
    using assms(2) by (simp add: list_all_length)
  have ok1: "row_ok A (rs1 ! i)" if "i < length rs" for i
    using that ok pl assms(3) by (simp add: rs1_def nth_list_update)
  have "row_ok A piv" unfolding piv_def using ok1 assms(3) by (intro row_ok_scale) simp
  then show ?thesis
    unfolding rs' using ok1 by (auto simp: list_all_length rs1_def intro!: row_ok_sub)
qed






lemma dot_unit_vec:
  assumes "i < n" "length v = n"
  shows "dot (unit_vec n i) v = v ! i"
proof -
  have "dot (unit_vec n i) v = (\<Sum>k<n. (if k = i then 1 else 0) * v ! k)"
    using assms by (simp add: dot_sum unit_vec_def)
  also have "\<dots> = (\<Sum>k<n. if k = i then v ! k else 0)"
    by (intro sum.cong) auto
  also have "\<dots> = v ! i"
    using assms by (simp add: sum.delta)
  finally show ?thesis .
qed

lemma row_ok_initial:
  assumes "wf_mat A" "nrows A = ncols A" "i < nrows A"
  shows "row_ok A (rows A ! i, unit_vec (nrows A) i)"
proof -
  have len: "length (rows A) = nrows A" and rl: "\<And>k. k < nrows A \<Longrightarrow> length (rows A ! k) = ncols A"
    using assms(1) by (simp_all add: wf_mat_def list_all_length)
  have "rows A ! i = vecmat (unit_vec (nrows A) i) A"
  proof (rule nth_equalityI)
    show "length (rows A ! i) = length (vecmat (unit_vec (nrows A) i) A)"
      using rl[OF assms(3)] by simp
  next
    fix j assume "j < length (rows A ! i)"
    then have j: "j < ncols A" using rl[OF assms(3)] by simp
    have "dot (unit_vec (nrows A) i) (col A j) = col A j ! i"
      by (rule dot_unit_vec) (simp_all add: assms(3) col_def len)
    then show "rows A ! i ! j = vecmat (unit_vec (nrows A) i) A ! j"
      using j assms(3) len by (simp add: vecmat_def col_def)
  qed
  then show ?thesis by (simp add: row_ok_def unit_vec_def)
qed

lemma linalg_inv_shape:
  assumes "linalg_inv A = Inr B"
  shows "nrows B = nrows A" "ncols B = nrows A" "nrows A = ncols A"
    "length (rows B) = min (length (rows A)) (nrows A)"
  using assms
  by (auto simp: linalg_inv_def mat_identity_def split: if_splits option.splits dest!: gj_cols_length)


section \<open>Shapes, and what can still raise\<close>

lemma wf_mat_T: "wf_mat X \<Longrightarrow> wf_mat (mat_T X)"
  by (simp add: wf_mat_def mat_T_def col_def list_all_length)

lemma wf_matmul: "wf_mat A \<Longrightarrow> matmul A B = Inr C \<Longrightarrow> wf_mat C"
  by (auto simp: wf_mat_def matmul_def list_all_length split: if_splits)

lemma wf_add_constant: "wf_mat X0 \<Longrightarrow> add_constant X0 = Inr X \<Longrightarrow> wf_mat X"
  by (auto simp: wf_mat_def add_constant_def list_all_length split: if_splits)

lemma wf_design:
  "wf_mat X0 \<Longrightarrow> (if b then add_constant X0 else Inr X0) = Inr X \<Longrightarrow> wf_mat X \<and> nrows X = nrows X0"
  by (auto simp: add_constant_def wf_mat_def list_all_length split: if_splits)

lemma gj_cols_rows_ok:
  assumes "gj_cols js rs = Some rs'" "list_all (row_ok A) rs" "\<forall>j\<in>set js. j < length rs"
  shows "list_all (row_ok A) rs'"
  using assms
proof (induction js arbitrary: rs)
  case Nil
  then show ?case by simp
next
  case (Cons j js)
  from Cons.prems(1) obtain rs1 where s: "gj_step j rs = Some rs1" and r: "gj_cols js rs1 = Some rs'"
    by (auto split: option.splits)
  have "list_all (row_ok A) rs1" using gj_step_ok[OF s Cons.prems(2)] Cons.prems(3) by simp
  moreover have "\<forall>j\<in>set js. j < length rs1" using Cons.prems(3) gj_step_length[OF s] by simp
  ultimately show ?case using Cons.IH[OF r] by simp
qed

lemma wf_linalg_inv:
  assumes "linalg_inv A = Inr B" "wf_mat A"
  shows "wf_mat B"
proof -
  define n where "n = nrows A"
  have sq: "ncols A = n" using linalg_inv_shape(3)[OF assms(1)] by (simp add: n_def)
  have len: "length (rows A) = n" using assms(2) by (simp add: wf_mat_def n_def)
  define rs0 where "rs0 = zip (rows A) (rows (mat_identity n))"
  from assms(1) obtain rs where rs: "gj_cols [0..<n] rs0 = Some rs" and B: "B = Matrix n n (map snd rs)"
    by (auto simp: linalg_inv_def n_def rs0_def split: if_splits option.splits)
  have l0: "length rs0 = n" by (simp add: rs0_def mat_identity_def len)
  have ok0: "list_all (row_ok A) rs0"
    unfolding list_all_length
  proof (intro allI impI)
    fix i assume "i < length rs0"
    then have i: "i < n" using l0 by simp
    then have "rs0 ! i = (rows A ! i, unit_vec (nrows A) i)"
      by (simp add: rs0_def mat_identity_def len n_def)
    then show "row_ok A (rs0 ! i)"
      using row_ok_initial[OF assms(2) _ i[unfolded n_def]] sq by (simp add: n_def)
  qed
  have "list_all (row_ok A) rs"
    by (rule gj_cols_rows_ok[OF rs ok0]) (simp add: l0)
  moreover have "length rs = n" using gj_cols_length[OF rs] l0 by simp
  ultimately show ?thesis
    by (simp add: wf_mat_def B list_all_length row_ok_def n_def)
qed

text \<open>Once the inverse is there, nothing raises any more.\<close>

lemma fit_completes:
  assumes wf: "wf_mat X0" and ly: "length y = nrows X0"
    and X: "(if fit_intercept self then add_constant X0 else Inr X0) = Inr X"
    and XtX: "matmul (mat_T X) X = Inr XtX" and Inv: "linalg_inv XtX = Inr Inv"
  shows "\<exists>P beta yhat.
           matmul Inv (mat_T X) = Inr P \<and> matvec P y = Inr beta \<and> length beta = ncols X \<and>
           matvec X beta = Inr yhat \<and> length yhat = length y \<and>
           fit self X0 y =
             (Inr yhat,
              self\<lparr>coefficients := Some beta,
                   std_errors := Some (map np_sqrt (np_diag (np_scale
                      (np_div (sum_squares (map2 (-) y yhat)) (real_of_int (int (nrows X) - int (ncols X)))) Inv))),
                   r_squared := Some (np_one_minus (np_div (sum_squares (map2 (-) y yhat)) (total_variance y)))\<rparr>)"
proof -
  have wfX: "wf_mat X" and nX: "nrows X = nrows X0" using wf_design[OF wf X] by simp_all
  have sh: "nrows XtX = ncols X" "length (rows XtX) = ncols X"
    using XtX by (auto simp: matmul_def mat_T_def split: if_splits)
  have shI: "ncols Inv = ncols X" "length (rows Inv) = ncols X"
    using linalg_inv_shape[OF Inv] sh by simp_all
  define P where "P = Matrix (nrows Inv) (nrows X) (map (\<lambda>r. map (\<lambda>j. dot r (col (mat_T X) j)) [0..<nrows X]) (rows Inv))"
  have P: "matmul Inv (mat_T X) = Inr P"
    using shI by (simp add: matmul_def P_def mat_T_def)
  define beta where "beta = map (\<lambda>r. dot r y) (rows P)"
  have b: "matvec P y = Inr beta"
    using ly nX by (simp add: matvec_def beta_def P_def)
  have lb: "length beta = ncols X" by (simp add: beta_def P_def shI)
  define yhat where "yhat = map (\<lambda>r. dot r beta) (rows X)"
  have yh: "matvec X beta = Inr yhat" using lb by (simp add: matvec_def yhat_def)
  have lyh: "length yhat = length y"
    using wfX nX ly by (simp add: yhat_def wf_mat_def)
  have res: "np_sub y yhat = Inr (map2 (-) y yhat)" using lyh by (simp add: np_sub_def)
  show ?thesis
    using X XtX Inv P b lb yh lyh res
    by (simp add: fit_def raising_def Let_def)
qed

lemma fit_Inr_length:
  assumes "fit self X0 y = (Inr yhat, self')" "wf_mat X0"
  shows "length y = nrows X0"
proof -
  from assms(1) obtain X XtX Inv P beta where
    X: "(if fit_intercept self then add_constant X0 else Inr X0) = Inr X"
    and P: "matmul Inv (mat_T X) = Inr P" and b: "matvec P y = Inr beta"
    unfolding fit_Inr_iff by blast
  have "nrows X = nrows X0" using wf_design[OF assms(2) X] by simp
  moreover have "ncols P = nrows X" using P by (auto simp: matmul_def mat_T_def split: if_splits)
  moreover have "ncols P = length y" using b by (auto simp: matvec_def split: if_splits)
  ultimately show ?thesis by simp
qed





section \<open>The pieces of a call that returned\<close>

lemma np_diag_scale:
  assumes "wf_mat M" "nrows M = ncols M"
  shows "np_diag (np_scale s M) = map (\<lambda>i. np_mul s (rows M ! i ! i)) [0..<ncols M]"
  using assms by (simp add: np_diag_def np_scale_def wf_mat_def list_all_length)

lemma sum_squares_nonneg: "0 \<le> sum_squares v"
  by (auto simp: sum_squares_def intro!: sum_list_nonneg)

lemma np_div_zero: "np_div (sum_squares v) 0 = (if sum_squares v = 0 then NaN else PInf)"
  using sum_squares_nonneg[of v] by (auto simp: np_div_def)


lemma fit_Inr_parts:
  assumes f: "fit self X0 y = (Inr yhat, self')" and wf: "wf_mat X0"
  obtains X XtX Inv P beta where
    "(if fit_intercept self then add_constant X0 else Inr X0) = Inr X"
    "matmul (mat_T X) X = Inr XtX" "linalg_inv XtX = Inr Inv"
    "matmul Inv (mat_T X) = Inr P" "matvec P y = Inr beta" "length beta = ncols X"
    "matvec X beta = Inr yhat" "length yhat = length y"
    "self' = self\<lparr>coefficients := Some beta,
                   std_errors := Some (map np_sqrt (np_diag (np_scale
                      (np_div (sum_squares (map2 (-) y yhat)) (real_of_int (int (nrows X) - int (ncols X)))) Inv))),
                   r_squared := Some (np_one_minus (np_div (sum_squares (map2 (-) y yhat)) (total_variance y)))\<rparr>"
proof -
  from f obtain X XtX Inv where
    X: "(if fit_intercept self then add_constant X0 else Inr X0) = Inr X"
    and XtX: "matmul (mat_T X) X = Inr XtX" and Inv: "linalg_inv XtX = Inr Inv"
    unfolding fit_Inr_iff by blast
  from fit_completes[OF wf fit_Inr_length[OF f wf] X XtX Inv] f that[OF X XtX Inv]
  show ?thesis by auto
qed

lemma wf_normal_inverse:
  assumes "wf_mat X" "matmul (mat_T X) X = Inr XtX" "linalg_inv XtX = Inr Inv"
  shows "wf_mat XtX" "wf_mat Inv" "nrows Inv = ncols X" "ncols Inv = ncols X" "nrows XtX = ncols X"
proof -
  show 1: "wf_mat XtX" using wf_matmul[OF wf_mat_T[OF assms(1)] assms(2)] .
  show "wf_mat Inv" using wf_linalg_inv[OF assms(3) 1] .
  show 2: "nrows XtX = ncols X" using assms(2) by (auto simp: matmul_def mat_T_def split: if_splits)
  show "nrows Inv = ncols X" "ncols Inv = ncols X" using linalg_inv_shape[OF assms(3)] 2 by simp_all
qed


lemma fold_max_const: "\<forall>v\<in>set c. v = a \<Longrightarrow> fold max c (a::real) = a"
  by (induction c) simp_all

lemma fold_min_const: "\<forall>v\<in>set c. v = a \<Longrightarrow> fold min c (a::real) = a"
  by (induction c) simp_all

lemma is_nonzero_const_replicate:
  assumes "0 < n" "a \<noteq> 0"
  shows "is_nonzero_const (replicate n a)"
proof -
  have "hd (replicate n a) = a" using assms(1) by (cases n) simp_all
  moreover have "fold max (replicate n a) a = a" by (rule fold_max_const) simp
  moreover have "fold min (replicate n a) a = a" by (rule fold_min_const) simp
  ultimately show ?thesis
    using assms(2) by (simp add: is_nonzero_const_def np_ptp_def list_all_iff del: fold_replicate)
qed

lemma has_constant_column:
  assumes "0 < nrows X" "j < ncols X" "col X j = replicate (nrows X) a" "a \<noteq> 0"
  shows "has_constant X"
  unfolding has_constant_def list_ex_iff
  using assms is_nonzero_const_replicate[OF assms(1,4)] by (intro bexI[of _ j]) simp_all

lemma dot_Cons: "dot (a # u) (b # v) = a * b + dot u v"
  by (simp add: dot_def)


lemma np_sqrt_mul_not_fin: "\<not> is_fin s \<Longrightarrow> s \<noteq> NInf \<Longrightarrow> \<not> is_fin (np_sqrt (np_mul s b))"
  by (cases s) auto

section \<open>The other side of the inverse, and the normal equations\<close>





















section \<open>The store only grows\<close>

lemma extends_refl [simp]: "extends h h"
  by (simp add: extends_def)

lemma extends_trans: "extends h h1 \<Longrightarrow> extends h1 h2 \<Longrightarrow> extends h h2"
  unfolding extends_def
  by (metis append_eq_conv_conj append_take_drop_id le_trans take_append take_all_iff min.absorb2 length_take order_refl append.assoc)

lemma extends_alloc: "alloc h v = (a, h') \<Longrightarrow> extends h h'"
  by (auto simp: alloc_def extends_def)

lemma new_array_extends: "new_array h mk r = Inr (a, h') \<Longrightarrow> extends h h'"
  by (auto simp: new_array_def alloc_def extends_def split: sum.splits)

lemma h_ops_extend:
  "h_add_constant h x = Inr (a, h') \<Longrightarrow> extends h h'"
  "h_T h x = Inr (a, h') \<Longrightarrow> extends h h'"
  "h_matmul h x b = Inr (a, h') \<Longrightarrow> extends h h'"
  "h_inv h x = Inr (a, h') \<Longrightarrow> extends h h'"
  "h_sub h x b = Inr (a, h') \<Longrightarrow> extends h h'"
  "h_sub_scalar h x m = Inr (a, h') \<Longrightarrow> extends h h'"
  "h_square h x = Inr (a, h') \<Longrightarrow> extends h h'"
  "h_scale h s x = Inr (a, h') \<Longrightarrow> extends h h'"
  "h_diag h x = Inr (a, h') \<Longrightarrow> extends h h'"
  "h_sqrt h x = Inr (a, h') \<Longrightarrow> extends h h'"
  by (auto simp: h_add_constant_def h_T_def h_matmul_def h_inv_def h_sub_def h_sub_scalar_def
      h_square_def h_scale_def h_diag_def h_sqrt_def alloc_def extends_def
      split: pyobj.splits if_splits dest: new_array_extends[unfolded extends_def])

lemma grows_raising:
  assumes "\<And>a h1. r = Inr (a, h1) \<Longrightarrow> extends h h1 \<and> grows h1 (k a h1)"
  shows "grows h (h_raising r self h k)"
proof (cases r)
  case (Inl e)
  then show ?thesis by (simp add: h_raising_def grows_def)
next
  case (Inr p)
  obtain a h1 where p: "p = (a, h1)" by (cases p)
  from assms[OF Inr[unfolded p]] show ?thesis
    by (auto simp: h_raising_def grows_def Inr p intro: extends_trans)
qed

lemma grows_return [simp]: "grows h (r, s, h)"
  by (simp add: grows_def)

lemma fit_ref_grows: "grows h0 (fit_ref self h0 X0 y)"
  unfolding fit_ref_def Let_def
  by (intro grows_raising conjI grows_return; (elim h_ops_extend)?; (simp split: if_splits)?; (elim h_ops_extend)?)

lemma predict_ref_grows: "grows h0 (predict_ref self h0 X0)"
  unfolding predict_ref_def
  by (intro grows_raising conjI grows_return; (simp split: if_splits option.splits)?; (elim h_ops_extend)?)

lemma predict_ref_self: "fst (snd (predict_ref self h0 X0)) = self"
  by (auto simp: predict_ref_def h_raising_def split: sum.splits option.splits)

lemmas h_defs = h_add_constant_def h_T_def h_matmul_def h_inv_def h_sub_def h_sub_scalar_def
      h_square_def h_scale_def h_diag_def h_sqrt_def alloc_def new_array_def h_sum_def h_mean_def h_shape_def
      h_raising_def

lemma fit_ref_refines:
  assumes "X0 < length h0" "y < length h0" "h0 ! X0 = Array2 X" "h0 ! y = Array1 yv" "valid_refs self h0"
  shows "case fit_ref self h0 X0 y of (r, self', h') \<Rightarrow>
           fit (attributes self h0) X yv = (map_sum id (vec_at h') r, attributes self' h')"
  using assms
  unfolding fit_ref_def fit_def Let_def
  by (auto simp: h_defs raising_def add_constant_def attributes_def vec_at_def fvec_at_def valid_refs_def
      nth_append sum_squares_def total_variance_def comp_def
      split: sum.splits option.splits if_splits)

lemma attributes_init_ref: "attributes (init_ref b) h = init b"
  by (simp add: attributes_def init_ref_def init_def)

lemma extends_nth: "extends h h' \<Longrightarrow> a < length h \<Longrightarrow> h' ! a = h ! a"
  by (metis extends_def nth_take)

lemma h_add_constant_new:
  assumes "h ! x = Array2 M" "h_add_constant h x = Inr (x', h')"
  shows "if has_constant M then x' = x \<and> h' = h
         else x' = length h \<and> h' = h @ [Array2 (Matrix (nrows M) (Suc (ncols M)) (map (\<lambda>r. 1 # r) (rows M)))]"
  using assms by (auto simp: h_add_constant_def alloc_def split: if_splits)

lemma predict_ref_refines:
  assumes "X0 < length h0" "h0 ! X0 = Array2 X" "valid_refs self h0"
    and "\<And>a. coefficients_ref self = Some a \<Longrightarrow> \<exists>v. h0 ! a = Array1 v"
  shows "case predict_ref self h0 X0 of (r, self', h') \<Rightarrow>
           predict (attributes self h0) X = (map_sum id (vec_at h') r, attributes self' h')"
proof (cases "coefficients_ref self")
  case None
  then show ?thesis
    using assms(1-3)
    unfolding predict_ref_def predict_def
    by (auto simp: h_defs raising_def add_constant_def attributes_def vec_at_def fvec_at_def valid_refs_def
        nth_append comp_def split: sum.splits option.splits if_splits)
next
  case (Some a)
  with assms(4) obtain v where v: "h0 ! a = Array1 v" by blast
  have a: "a < length h0" using assms(3) Some by (simp add: valid_refs_def)
  show ?thesis
    using assms(1-3) Some v a
    unfolding predict_ref_def predict_def
    by (auto simp: h_defs raising_def add_constant_def attributes_def vec_at_def fvec_at_def valid_refs_def
        nth_append comp_def split: sum.splits option.splits if_splits)
qed

section \<open>Sample calls\<close>

text \<open>
  Three observations \<open>x = 1, 2, 4\<close> with responses \<open>1, 3, 2\<close>, fitted with an intercept:
  the line is \<open>3/2 + 3/14 x\<close>.
\<close>

lemma fit_sample:
  "fit (init True) (Matrix 3 1 [[1], [2], [4]]) [1, 3, 2] =
     (Inr [12 / 7, 27 / 14, 33 / 14],
      \<lparr>coefficients = Some [3 / 2, 3 / 14],
        std_errors = Some [Fin (sqrt (75 / 28)), Fin (sqrt (75 / 196))],
        r_squared = Some (Fin (3 / 28)), fit_intercept = True\<rparr>)"
  by (simp add: ev)


text \<open>Further calls: as many rows as columns, constant responses, a column that is constant.\<close>

lemma fit_sample_square:
  "fit (init True) (Matrix 2 1 [[1], [2]]) [1, 3] =
     (Inr [1, 3],
      \<lparr>coefficients = Some [- 1, 2], std_errors = Some [NaN, NaN],
        r_squared = Some (Fin 1), fit_intercept = True\<rparr>)"
  by (simp add: ev)



lemma fit_sample_constant_column:
  "fit (init True) (Matrix 3 2 [[1, 1], [1, 2], [1, 4]]) [1, 3, 2] =
     (Inr [12 / 7, 27 / 14, 33 / 14],
      \<lparr>coefficients = Some [3 / 2, 3 / 14],
        std_errors = Some [Fin (sqrt (75 / 28)), Fin (sqrt (75 / 196))],
        r_squared = Some (Fin (3 / 28)), fit_intercept = True\<rparr>)"
  by (simp add: ev)

lemma fit_sample_zero_column:
  "add_constant (Matrix 3 2 [[0, 1], [0, 2], [0, 4]]) = Inr (Matrix 3 3 [[1, 0, 1], [1, 0, 2], [1, 0, 4]])"
  "fit (init True) (Matrix 3 2 [[0, 1], [0, 2], [0, 4]]) [1, 2, 2] = (Inl SingularMatrix, init True)"
  by (simp_all add: ev)

lemma sample_square_inverse:
  "add_constant (Matrix 2 1 [[1], [2]]) = Inr (Matrix 2 2 [[1, 1], [1, 2]])"
  "matmul (mat_T (Matrix 2 2 [[1, 1], [1, 2]])) (Matrix 2 2 [[1, 1], [1, 2]]) = Inr (Matrix 2 2 [[2, 3], [3, 5]])"
  "linalg_inv (Matrix 2 2 [[2, 3], [3, 5]]) = Inr (Matrix 2 2 [[5, - 3], [- 3, 2]])"
  by (simp_all add: ev)




section \<open>The claims\<close>



text \<open>
  C7. After a call \<open>fit(X, y)\<close> that returned, \<open>predict(X)\<close> on the same \<open>X\<close> returns
  the very vector of fitted values that \<open>fit\<close> returned (and leaves the estimator as it
  is).
\<close>

theorem predict_reproduces_fit:
  assumes "fit self X y = (Inr yhat, self')"
  shows "predict self' X = (Inr yhat, self')"
  using assms unfolding fit_Inr_iff predict_def by (auto simp: raising_def)

theorem predict_reproduces_fit_witness:
  "fst (fit (init True) (Matrix 3 1 [[1], [2], [4]]) [1, 3, 2]) = Inr [12 / 7, 27 / 14, 33 / 14] \<and>
   fst (predict (snd (fit (init True) (Matrix 3 1 [[1], [2], [4]]) [1, 3, 2])) (Matrix 3 1 [[1], [2], [4]])) =
     Inr [12 / 7, 27 / 14, 33 / 14]"
  using predict_reproduces_fit[OF fit_sample] by (simp add: fit_sample del: One_nat_def)





text \<open>
  C2, as amended. With the intercept on and no column of \<open>X\<close> that is constant and nonzero,
  \<open>fit\<close> works on \<open>X\<close> with a column of ones in front: the coefficient vector has one
  entry more than \<open>X\<close> has columns, its entry 0 is the intercept and the others follow the
  columns of \<open>X\<close>, so that a fitted value is the intercept plus the product of a row of \<open>X\<close>
  with the other coefficients. With the intercept off, or when \<open>X\<close> already has a column
  that is constant and nonzero, \<open>fit\<close> works on \<open>X\<close> as it is and there are as many
  coefficients as columns.
\<close>

theorem fit_intercept_columns:
  assumes "fit self X0 y = (Inr yhat, self')" "wf_mat X0"
  shows "\<exists>beta. coefficients self' = Some beta \<and>
           (if fit_intercept self \<and> \<not> has_constant X0
            then length beta = Suc (ncols X0) \<and>
                 yhat = map (\<lambda>r. hd beta + dot r (tl beta)) (rows X0)
            else length beta = ncols X0 \<and> yhat = map (\<lambda>r. dot r beta) (rows X0))"
proof -
  from assms obtain X beta where p:
    "(if fit_intercept self then add_constant X0 else Inr X0) = Inr X"
    "length beta = ncols X" "matvec X beta = Inr yhat" "coefficients self' = Some beta"
    by (rule fit_Inr_parts) simp
  have yh: "yhat = map (\<lambda>r. dot r beta) (rows X)"
    using p(3) by (auto simp: matvec_def split: if_splits)
  show ?thesis
  proof (cases "fit_intercept self \<and> \<not> has_constant X0")
    case True
    then have X: "X = Matrix (nrows X0) (Suc (ncols X0)) (map (\<lambda>r. 1 # r) (rows X0))"
      using p(1) by (auto simp: add_constant_def split: if_splits)
    then have lb: "length beta = Suc (ncols X0)" using p(2) by simp
    then obtain b0 bs where b: "beta = b0 # bs" by (cases beta) simp_all
    have "yhat = map (\<lambda>r. hd beta + dot r (tl beta)) (rows X0)"
      by (simp add: yh X b dot_Cons comp_def)
    with True lb p(4) show ?thesis by simp
  next
    case False
    then have "X = X0" using p(1) by (auto simp: add_constant_def split: if_splits)
    with False p(2,4) yh show ?thesis by auto
  qed
qed


theorem fit_intercept_columns_witness:
  "wf_mat (Matrix 3 1 [[1], [2], [4 :: real]]) \<and> fit_intercept (init True) \<and>
   \<not> has_constant (Matrix 3 1 [[1], [2], [4]]) \<and>
   fst (fit (init True) (Matrix 3 1 [[1], [2], [4]]) [1, 3, 2]) = Inr [12 / 7, 27 / 14, 33 / 14] \<and>
   coefficients (snd (fit (init True) (Matrix 3 1 [[1], [2], [4]]) [1, 3, 2])) = Some [3 / 2, 3 / 14] \<and>
   length [3 / 2, 3 / 14 :: real] = Suc (ncols (Matrix 3 1 [[1], [2], [4 :: real]])) \<and>
   [12 / 7, 27 / 14, 33 / 14] =
     map (\<lambda>r. hd [3 / 2, 3 / 14 :: real] + dot r (tl [3 / 2, 3 / 14])) (rows (Matrix 3 1 [[1], [2], [4]]))"
proof -
  have wf: "wf_mat (Matrix 3 1 [[1], [2], [4 :: real]])" by (simp add: wf_mat_def)
  have nc: "\<not> has_constant (Matrix 3 1 [[1], [2], [4]])" by (simp add: ev)
  have fi: "fit_intercept (init True)" by (simp add: init_def)
  show ?thesis
    using wf nc fi fit_intercept_columns[OF fit_sample wf]
    by (simp add: fit_sample dot_def del: One_nat_def)
qed


text \<open>
  The claim as it was stated fails on a matrix whose first column is all ones: the
  intercept is on, \<open>X\<close> has two columns, and \<open>fit\<close> stores two coefficients, not three.
\<close>

theorem fit_intercept_columns_counterexample:
  "fit_intercept (init True) \<and> ncols (Matrix 3 2 [[1, 1], [1, 2], [1, 4 :: real]]) = 2 \<and>
   fst (fit (init True) (Matrix 3 2 [[1, 1], [1, 2], [1, 4]]) [1, 3, 2]) = Inr [12 / 7, 27 / 14, 33 / 14] \<and>
   coefficients (snd (fit (init True) (Matrix 3 2 [[1, 1], [1, 2], [1, 4]]) [1, 3, 2])) = Some [3 / 2, 3 / 14]"
proof -
  have "fit_intercept (init True)" by (simp add: init_def)
  then show ?thesis by (simp add: fit_sample_constant_column)
qed








text \<open>
  C5, as amended. With no more rows than columns in the design matrix and an inverse of the
  normal matrix, \<open>fit\<close> raises nothing: it returns, and stores coefficients and as many
  standard errors. With as many rows as columns the divisor \<open>n - p\<close> is zero, the quotient
  is NaN or an infinity, and no stored standard error is a number.
\<close>

theorem fit_without_degrees_of_freedom:
  assumes wf: "wf_mat X0" and ly: "length y = nrows X0"
    and X: "(if fit_intercept self then add_constant X0 else Inr X0) = Inr X"
    and XtX: "matmul (mat_T X) X = Inr XtX" and Inv: "linalg_inv XtX = Inr Inv"
    and np: "nrows X \<le> ncols X"
  shows "\<exists>yhat self' beta se.
           fit self X0 y = (Inr yhat, self') \<and> coefficients self' = Some beta \<and>
           std_errors self' = Some se \<and> length se = length beta \<and>
           (nrows X = ncols X \<longrightarrow> list_all (\<lambda>v. \<not> is_fin v) se)"
proof -
  from fit_completes[OF wf ly X XtX Inv] obtain beta yhat where
    lb: "length beta = ncols X" and
    f: "fit self X0 y =
             (Inr yhat,
              self\<lparr>coefficients := Some beta,
                   std_errors := Some (map np_sqrt (np_diag (np_scale
                      (np_div (sum_squares (map2 (-) y yhat)) (real_of_int (int (nrows X) - int (ncols X)))) Inv))),
                   r_squared := Some (np_one_minus (np_div (sum_squares (map2 (-) y yhat)) (total_variance y)))\<rparr>)"
    by auto
  have wfX: "wf_mat X" using wf_design[OF wf X] by simp
  note w = wf_normal_inverse[OF wfX XtX Inv]
  have d: "np_diag (np_scale s Inv) = map (\<lambda>i. np_mul s (rows Inv ! i ! i)) [0..<ncols X]" for s
    using np_diag_scale[OF w(2)] w(3,4) by simp
  define se where "se = map np_sqrt (np_diag (np_scale
                      (np_div (sum_squares (map2 (-) y yhat)) (real_of_int (int (nrows X) - int (ncols X)))) Inv))"
  have l: "length se = length beta" by (simp add: se_def d lb)
  have "list_all (\<lambda>v. \<not> is_fin v) se" if "nrows X = ncols X"
  proof -
    have "\<not> is_fin (np_div (sum_squares (map2 (-) y yhat)) 0)"
      "np_div (sum_squares (map2 (-) y yhat)) 0 \<noteq> NInf"
      by (simp_all add: np_div_zero)
    then show ?thesis
      using that by (simp add: se_def d list_all_iff np_sqrt_mul_not_fin)
  qed
  with f l show ?thesis by (simp add: se_def)
qed

theorem fit_without_degrees_of_freedom_witness:
  "wf_mat (Matrix 2 1 [[1], [2 :: real]]) \<and> length [1, 3 :: real] = nrows (Matrix 2 1 [[1], [2 :: real]]) \<and>
   add_constant (Matrix 2 1 [[1], [2]]) = Inr (Matrix 2 2 [[1, 1], [1, 2]]) \<and>
   linalg_inv (Matrix 2 2 [[2, 3], [3, 5]]) = Inr (Matrix 2 2 [[5, - 3], [- 3, 2]]) \<and>
   fst (fit (init True) (Matrix 2 1 [[1], [2]]) [1, 3]) = Inr [1, 3] \<and>
   std_errors (snd (fit (init True) (Matrix 2 1 [[1], [2]]) [1, 3])) = Some [NaN, NaN] \<and>
   list_all (\<lambda>v. \<not> is_fin v) [NaN, NaN]"
proof -
  have wf: "wf_mat (Matrix 2 1 [[1], [2 :: real]])" by (simp add: wf_mat_def)
  have ly: "length [1, 3 :: real] = nrows (Matrix 2 1 [[1], [2 :: real]])" by simp
  have X: "(if fit_intercept (init True) then add_constant (Matrix 2 1 [[1], [2]]) else Inr (Matrix 2 1 [[1], [2]]))
             = Inr (Matrix 2 2 [[1, 1], [1, 2]])"
    by (simp add: sample_square_inverse(1) init_def del: One_nat_def)
  have le: "nrows (Matrix 2 2 [[1, 1], [1, 2 :: real]]) \<le> ncols (Matrix 2 2 [[1, 1], [1, 2 :: real]])" by simp
  note t = fit_without_degrees_of_freedom[OF wf ly X sample_square_inverse(2,3) le]
  have "list_all (\<lambda>v. \<not> is_fin v) [NaN, NaN]"
    using t by (simp add: fit_sample_square del: One_nat_def)
  then show ?thesis
    using wf ly sample_square_inverse(1,3) by (simp add: fit_sample_square del: One_nat_def)
qed

text \<open>
  The claim as it was stated fails on the two observations \<open>x = 1, 2\<close> with responses
  \<open>1, 3\<close>: with the column of ones the design matrix is two by two, its normal matrix has
  an inverse, and \<open>fit\<close> returns with both standard errors NaN.
\<close>

theorem fit_without_degrees_of_freedom_counterexample:
  "add_constant (Matrix 2 1 [[1], [2]]) = Inr (Matrix 2 2 [[1, 1], [1, 2]]) \<and>
   nrows (Matrix 2 2 [[1, 1], [1, 2 :: real]]) = ncols (Matrix 2 2 [[1, 1], [1, 2 :: real]]) \<and>
   matmul (mat_T (Matrix 2 2 [[1, 1], [1, 2]])) (Matrix 2 2 [[1, 1], [1, 2]]) = Inr (Matrix 2 2 [[2, 3], [3, 5]]) \<and>
   linalg_inv (Matrix 2 2 [[2, 3], [3, 5]]) = Inr (Matrix 2 2 [[5, - 3], [- 3, 2]]) \<and>
   fit (init True) (Matrix 2 1 [[1], [2]]) [1, 3] =
     (Inr [1, 3],
      \<lparr>coefficients = Some [- 1, 2], std_errors = Some [NaN, NaN],
        r_squared = Some (Fin 1), fit_intercept = True\<rparr>)"
  using sample_square_inverse fit_sample_square by simp

text \<open>
  C10, as amended. When \<open>X\<close> has at least one row and a column whose entries are all the
  same nonzero number, \<^verbatim>\<open>sm.add_constant\<close> returns \<open>X\<close> as it is: with the intercept on,
  \<open>fit\<close> and \<open>predict\<close> compute what they compute with the intercept off, on the \<open>k\<close>
  columns of \<open>X\<close>, and a call of \<open>fit\<close> that returns has stored \<open>k\<close> coefficients.
\<close>

theorem constant_column_skips_augmentation:
  assumes wf: "wf_mat X" and n: "0 < nrows X" and j: "j < ncols X"
    and c: "col X j = replicate (nrows X) a" and a: "a \<noteq> 0" and fi: "fit_intercept self"
  shows "add_constant X = Inr X \<and>
         fst (fit self X y) = fst (fit (self\<lparr>fit_intercept := False\<rparr>) X y) \<and>
         fst (predict self X) = fst (predict (self\<lparr>fit_intercept := False\<rparr>) X) \<and>
         (fit self X y = (Inr yhat, self') \<longrightarrow>
            (\<exists>beta. coefficients self' = Some beta \<and> length beta = ncols X))"
proof -
  have hc: "has_constant X" using has_constant_column[OF n j c a] .
  then have ac: "add_constant X = Inr X" using n by (simp add: add_constant_def)
  have 1: "fst (fit self X y) = fst (fit (self\<lparr>fit_intercept := False\<rparr>) X y)"
    using fi ac by (simp add: fit_def raising_def Let_def split: sum.splits)
  have 2: "fst (predict self X) = fst (predict (self\<lparr>fit_intercept := False\<rparr>) X)"
    using fi ac by (simp add: predict_def raising_def split: sum.splits option.splits)
  have 3: "\<exists>beta. coefficients self' = Some beta \<and> length beta = ncols X"
    if f: "fit self X y = (Inr yhat, self')"
  proof -
    from f wf obtain X' beta where p:
      "(if fit_intercept self then add_constant X else Inr X) = Inr X'"
      "length beta = ncols X'" "coefficients self' = Some beta"
      by (rule fit_Inr_parts) simp
    have "X' = X" using p(1) ac by (simp split: if_splits)
    with p show ?thesis by simp
  qed
  from ac 1 2 3 show ?thesis by blast
qed

theorem constant_column_skips_augmentation_witness:
  "wf_mat (Matrix 3 2 [[1, 1], [1, 2], [1, 4 :: real]]) \<and>
   col (Matrix 3 2 [[1, 1], [1, 2], [1, 4 :: real]]) 0 = replicate 3 1 \<and>
   add_constant (Matrix 3 2 [[1, 1], [1, 2], [1, 4]]) = Inr (Matrix 3 2 [[1, 1], [1, 2], [1, 4]]) \<and>
   fst (fit (init True) (Matrix 3 2 [[1, 1], [1, 2], [1, 4]]) [1, 3, 2]) = Inr [12 / 7, 27 / 14, 33 / 14] \<and>
   coefficients (snd (fit (init True) (Matrix 3 2 [[1, 1], [1, 2], [1, 4]]) [1, 3, 2])) = Some [3 / 2, 3 / 14]"
proof -
  have wf: "wf_mat (Matrix 3 2 [[1, 1], [1, 2], [1, 4 :: real]])" by (simp add: wf_mat_def)
  have c: "col (Matrix 3 2 [[1, 1], [1, 2], [1, 4 :: real]]) 0 = replicate (nrows (Matrix 3 2 [[1, 1], [1, 2], [1, 4 :: real]])) 1"
    by (simp add: col_def numeral_3_eq_3)
  have fi: "fit_intercept (init True)" by (simp add: init_def)
  have "add_constant (Matrix 3 2 [[1, 1], [1, 2], [1, 4]]) = Inr (Matrix 3 2 [[1, 1], [1, 2], [1, 4]])"
    using constant_column_skips_augmentation[OF wf _ _ c _ fi] by simp
  moreover have "col (Matrix 3 2 [[1, 1], [1, 2], [1, 4 :: real]]) 0 = replicate 3 1"
    using c by simp
  ultimately show ?thesis
    using wf by (simp add: fit_sample_constant_column)
qed

text \<open>
  The claim as it was stated fails on a column of zeros: that column is constant, a column
  of ones is added all the same (three columns for the two of \<open>X\<close>), and \<open>fit\<close> raises on
  the singular normal matrix.
\<close>

theorem constant_column_skips_augmentation_counterexample:
  "col (Matrix 3 2 [[0, 1], [0, 2], [0, 4 :: real]]) 0 = replicate 3 0 \<and>
   fit_intercept (init True) \<and>
   add_constant (Matrix 3 2 [[0, 1], [0, 2], [0, 4]]) = Inr (Matrix 3 3 [[1, 0, 1], [1, 0, 2], [1, 0, 4]]) \<and>
   fit (init True) (Matrix 3 2 [[0, 1], [0, 2], [0, 4]]) [1, 2, 2] = (Inl SingularMatrix, init True)"
proof -
  have "col (Matrix 3 2 [[0, 1], [0, 2], [0, 4 :: real]]) 0 = replicate 3 0"
    by (simp add: col_def numeral_3_eq_3)
  moreover have "fit_intercept (init True)" by (simp add: init_def)
  ultimately show ?thesis using fit_sample_zero_column by blast
qed

text \<open>
  C9. \<open>fit\<close> and \<open>predict\<close> write to no array that existed before the call: whatever the
  outcome, every object the store held before the call is at its address after it,
  unchanged, the caller's \<open>X\<close>, \<open>y\<close> and \<open>X_test\<close> among them. \<open>predict\<close> returns the
  estimator object as it was given. When \<^verbatim>\<open>sm.add_constant\<close> adds the column of ones, the
  design matrix is a new object and \<open>X\<close> stays as it is; when it adds none (a column of
  \<open>X\<close> is constant and nonzero) the design matrix is the object \<open>X\<close> itself, which is read
  and not written.
\<close>

theorem calls_leave_arrays_unchanged:
  "(case fit_ref self h X y of (r, self', h') \<Rightarrow>
      length h \<le> length h' \<and> (\<forall>a<length h. h' ! a = h ! a)) \<and>
   (case predict_ref self h X_test of (r, self', h') \<Rightarrow>
      self' = self \<and> length h \<le> length h' \<and> (\<forall>a<length h. h' ! a = h ! a)) \<and>
   (X < length h \<and> h ! X = Array2 M \<and> h_add_constant h X = Inr (Xa, h1) \<longrightarrow>
      (if has_constant M then Xa = X \<and> h1 = h else Xa = length h \<and> h1 ! X = Array2 M))"
proof (intro conjI)
  have "extends h (snd (snd (fit_ref self h X y)))"
    using fit_ref_grows[of h self X y] by (simp add: grows_def)
  then show "case fit_ref self h X y of (r, self', h') \<Rightarrow>
      length h \<le> length h' \<and> (\<forall>a<length h. h' ! a = h ! a)"
    by (auto simp: extends_nth extends_def split: prod.splits)
  have "extends h (snd (snd (predict_ref self h X_test)))"
    using predict_ref_grows[of h self X_test] by (simp add: grows_def)
  then show "case predict_ref self h X_test of (r, self', h') \<Rightarrow>
      self' = self \<and> length h \<le> length h' \<and> (\<forall>a<length h. h' ! a = h ! a)"
    using predict_ref_self[of self h X_test] by (auto simp: extends_nth extends_def split: prod.splits)
  show "X < length h \<and> h ! X = Array2 M \<and> h_add_constant h X = Inr (Xa, h1) \<longrightarrow>
      (if has_constant M then Xa = X \<and> h1 = h else Xa = length h \<and> h1 ! X = Array2 M)"
  proof (intro impI, elim conjE)
    assume a: "X < length h" "h ! X = Array2 M" "h_add_constant h X = Inr (Xa, h1)"
    from h_add_constant_new[OF a(2,3)] a(1,2)
    show "if has_constant M then Xa = X \<and> h1 = h else Xa = length h \<and> h1 ! X = Array2 M"
      by (auto simp: nth_append)
  qed
qed

theorem calls_leave_arrays_unchanged_witness:
  "map_sum id (vec_at (snd (snd (fit_ref (init_ref True) [Array2 (Matrix 3 1 [[1], [2], [4]]), Array1 [1, 3, 2]] 0 1))))
      (fst (fit_ref (init_ref True) [Array2 (Matrix 3 1 [[1], [2], [4]]), Array1 [1, 3, 2]] 0 1)) =
     Inr [12 / 7, 27 / 14, 33 / 14] \<and>
   take 2 (snd (snd (fit_ref (init_ref True) [Array2 (Matrix 3 1 [[1], [2], [4]]), Array1 [1, 3, 2]] 0 1))) =
     [Array2 (Matrix 3 1 [[1], [2], [4]]), Array1 [1, 3, 2]] \<and>
   h_add_constant [Array2 (Matrix 3 1 [[1], [2], [4]]), Array1 [1, 3, 2]] 0 =
     Inr (2, [Array2 (Matrix 3 1 [[1], [2], [4]]), Array1 [1, 3, 2], Array2 (Matrix 3 2 [[1, 1], [1, 2], [1, 4]])])"
proof -
  let ?h = "[Array2 (Matrix 3 1 [[1], [2], [4]]), Array1 [1, 3, 2]]"
  let ?R = "fit_ref (init_ref True) ?h 0 1"
  obtain r self' h' where R: "?R = (r, self', h')" by (cases ?R) auto
  have v: "valid_refs (init_ref True) ?h" by (simp add: valid_refs_def init_ref_def)
  have "case ?R of (r, self', h') \<Rightarrow>
          fit (attributes (init_ref True) ?h) (Matrix 3 1 [[1], [2], [4]]) [1, 3, 2] =
            (map_sum id (vec_at h') r, attributes self' h')"
    by (rule fit_ref_refines[OF _ _ _ _ v]) simp_all
  then have 1: "map_sum id (vec_at h') r = Inr [12 / 7, 27 / 14, 33 / 14]"
    unfolding R attributes_init_ref fit_sample by simp
  have "length ?h \<le> length h' \<and> (\<forall>a<length ?h. h' ! a = ?h ! a)"
    using calls_leave_arrays_unchanged[where self = "init_ref True" and h = ?h and X = 0 and y = 1]
    unfolding R by simp
  then have "take (length ?h) h' = ?h"
    by (intro nth_equalityI) simp_all
  then have 2: "take 2 h' = ?h" by (simp add: numeral_2_eq_2)
  have 3: "h_add_constant ?h 0 = Inr (2, ?h @ [Array2 (Matrix 3 2 [[1, 1], [1, 2], [1, 4]])])"
    by (simp add: h_add_constant_def alloc_def has_constant_def is_nonzero_const_def np_ptp_def col_def)
  show ?thesis
    unfolding R using 1 2 3 by simp
qed

end
